theory Spec2Isabelle
  imports Main
begin

section \<open>github-tree: the data the program works on\<close>

text \<open>
  The repository is one Go file, \<^verbatim>\<open>github-tree.go\<close>. Go strings are byte
  sequences, so they are \<open>string\<close> here, one \<open>char\<close> per byte; each box-drawing
  glyph is three UTF-8 bytes.

  Go's \<open>int\<close> is the 64-bit signed integer of the usual platforms: a value is an
  \<open>int\<close> between \<open>-2^63\<close> and \<open>2^63 - 1\<close>, and a sum is taken back into that range
  by \<open>wrapInt64\<close>. The only sum of the program that can leave the range is
  \<open>level+1\<close>.
\<close>

text \<open>\<^verbatim>\<open>type File struct { Name string; Type string }\<close>\<close>

record File =
  Name :: string
  Type :: string

text \<open>
  The anonymous struct \<^verbatim>\<open>{Owner, Repo, Path, MaxDepth}\<close> that
  \<^verbatim>\<open>readInputsFromFile\<close>, \<^verbatim>\<open>updateInputsInFile\<close> and \<^verbatim>\<open>main\<close> marshal to and
  from \<^verbatim>\<open>github-tree-inputs.txt\<close>.
\<close>

record inputs =
  Owner :: string
  Repo :: string
  Path :: string
  MaxDepth :: int

text \<open>The four package-level flag variables, after \<^verbatim>\<open>flag.Parse()\<close>.\<close>

record flags =
  ownerFlag :: string
  repoFlag :: string
  pathFlag :: string
  maxDepthFlag :: int

text \<open>
  What the program finds at \<^verbatim>\<open>github-tree-inputs.txt\<close>: \<open>Absent\<close> when \<^verbatim>\<open>os.Stat\<close>
  returns an error, \<open>Unreadable\<close> when \<^verbatim>\<open>os.ReadFile\<close> does, \<open>Malformed\<close> when
  \<^verbatim>\<open>json.Unmarshal\<close> does, and otherwise the struct that \<^verbatim>\<open>json.Unmarshal\<close>
  fills. \<^verbatim>\<open>encoding/json\<close> is a library: a file written from a struct is taken to be
  read back as that struct.
\<close>

datatype inputsFile = Absent | Unreadable | Malformed | Stored inputs

text \<open>
  The part of the machine \<^verbatim>\<open>main\<close> touches besides the network: the working
  directory (\<open>None\<close> when \<^verbatim>\<open>os.Getwd\<close> fails), the settings file, whether
  \<^verbatim>\<open>os.WriteFile\<close> on it succeeds, and \<^verbatim>\<open>GITHUB_ACCESS_TOKEN\<close> (\<^verbatim>\<open>os.Getenv\<close>
  gives the empty string when it is unset).
\<close>

record world =
  cwd :: "string option"
  inputsFile :: inputsFile
  writable :: bool
  accessTokenEnv :: string

text \<open>
  The network. \<open>newRequest url\<close> tells whether \<^verbatim>\<open>http.NewRequest("GET", url, nil)\<close>
  succeeds; \<open>roundTrip url authorization\<close> is what the three steps \<^verbatim>\<open>client.Do\<close>,
  \<^verbatim>\<open>io.ReadAll\<close>, \<^verbatim>\<open>json.Unmarshal\<close> come to for that request.
\<close>

datatype reply = DoError | ReadAllError | UnmarshalError | Entries "File list"

record net =
  newRequest :: "string \<Rightarrow> bool"
  roundTrip :: "string \<Rightarrow> string \<Rightarrow> reply"

text \<open>Every \<^verbatim>\<open>panic\<close> of the source is one constructor.\<close>

datatype panic =
    GetwdFailed
  | ReadFileFailed
  | ParseInputsFailed
  | EmptyOwnerOrRepo
  | WriteFileFailed
  | TokenNotFound
  | NewRequestFailed
  | DoFailed
  | ReadAllFailed
  | UnmarshalFailed

text \<open>
  What a run does that can be seen from outside, in the order it happens: a request
  handed to \<^verbatim>\<open>client.Do\<close> (with the value of \<open>level\<close> in the frame that issues it,
  kept for the depth bound), and a write to standard output.
\<close>

datatype event =
    HttpGet string string int
  | Stdout string

fun stdoutOf :: "event list \<Rightarrow> string" where
  "stdoutOf [] = []"
| "stdoutOf (Stdout s # es) = s @ stdoutOf es"
| "stdoutOf (HttpGet u a l # es) = stdoutOf es"

fun requestsOf :: "event list \<Rightarrow> (string \<times> string) list" where
  "requestsOf [] = []"
| "requestsOf (Stdout s # es) = requestsOf es"
| "requestsOf (HttpGet u a l # es) = (u, a) # requestsOf es"

fun levelsOf :: "event list \<Rightarrow> int list" where
  "levelsOf [] = []"
| "levelsOf (Stdout s # es) = levelsOf es"
| "levelsOf (HttpGet u a l # es) = l # levelsOf es"

text \<open>Go's \<open>+\<close> on \<open>int\<close> is the sum taken back into \<open>-2^63 .. 2^63 - 1\<close>.\<close>

definition wrapInt64 :: "int \<Rightarrow> int" where
  "wrapInt64 x = (x + 2 ^ 63) mod 2 ^ 64 - 2 ^ 63"

section \<open>The renderer\<close>

text \<open>
  The glyphs as the bytes of the Go string literals: U+2514 is \<open>E2 94 94\<close>, U+251C is
  \<open>E2 94 9C\<close>, U+2500 is \<open>E2 94 80\<close>, U+2502 is \<open>E2 94 82\<close>.
\<close>

definition glyphCorner :: string where
  "glyphCorner = [CHR 0xE2, CHR 0x94, CHR 0x94]"

definition glyphTee :: string where
  "glyphTee = [CHR 0xE2, CHR 0x94, CHR 0x9C]"

definition glyphDash :: string where
  "glyphDash = [CHR 0xE2, CHR 0x94, CHR 0x80]"

definition glyphBar :: string where
  "glyphBar = [CHR 0xE2, CHR 0x94, CHR 0x82]"

definition getFilePrefix :: "bool \<Rightarrow> string" where
  "getFilePrefix isLast =
     (if isLast then glyphCorner @ glyphDash @ glyphDash @ '' ''
      else glyphTee @ glyphDash @ glyphDash @ '' '')"

definition getDirPrefix :: "bool \<Rightarrow> string" where
  "getDirPrefix isLast =
     (if isLast then glyphCorner @ glyphDash @ glyphDash @ '' ''
      else glyphTee @ glyphDash @ glyphDash @ '' '')"

definition getIndentPrefix :: "bool \<Rightarrow> string" where
  "getIndentPrefix isLast =
     (if isLast then ''    '' else glyphBar @ ''   '')"

section \<open>The fetcher\<close>

text \<open>\<^verbatim>\<open>fmt.Sprintf("https://api.github.com/repos/%s/%s/contents/%s", owner, repo, path)\<close>\<close>

definition contentsUrl :: "string \<Rightarrow> string \<Rightarrow> string \<Rightarrow> string" where
  "contentsUrl owner repo path =
     ''https://api.github.com/repos/'' @ owner @ ''/'' @ repo @ ''/contents/'' @ path"

text \<open>
  \<^verbatim>\<open>fetchFilesAndFolders\<close> and its \<^verbatim>\<open>for i, f := range files\<close> loop call each
  other, and with \<open>maxDepth = 2^63 - 1\<close> the guard \<open>level > maxDepth\<close> never holds, so
  against a remote tree without end the recursion does not end either. The two are
  therefore one partial function on the frame that is running: \<open>FetchFrame path
  indent level\<close> is a call of \<^verbatim>\<open>fetchFilesAndFolders\<close>, \<open>RangeFrame path indent level
  files i\<close> is its loop at index \<open>i\<close>. The value is \<open>None\<close> when the frame does not
  return; otherwise it is the panic that ended it (\<open>None\<close> for a normal return) and the
  events up to that point: what was printed before a panic stays printed.
\<close>

datatype frame =
    FetchFrame string string int
  | RangeFrame string string int "File list" nat

partial_function (option) runFrame ::
    "net \<Rightarrow> string \<Rightarrow> string \<Rightarrow> string \<Rightarrow> int \<Rightarrow> frame
      \<Rightarrow> (panic option \<times> event list) option"
where
  "runFrame nw accessToken owner repo maxDepth fr =
     (case fr of
        FetchFrame path indent level \<Rightarrow>
          (if level > maxDepth then Some (None, [])
           else
             let url = contentsUrl owner repo path in
             if \<not> newRequest nw url then Some (Some NewRequestFailed, [])
             else
               let authorization = ''Bearer '' @ accessToken;
                   req = HttpGet url authorization level
               in case roundTrip nw url authorization of
                    DoError \<Rightarrow> Some (Some DoFailed, [req])
                  | ReadAllError \<Rightarrow> Some (Some ReadAllFailed, [req])
                  | UnmarshalError \<Rightarrow> Some (Some UnmarshalFailed, [req])
                  | Entries files \<Rightarrow>
                      Option.bind
                        (runFrame nw accessToken owner repo maxDepth
                           (RangeFrame path indent level files 0))
                        (\<lambda>(r, es). Some (r, req # es)))
      | RangeFrame path indent level files i \<Rightarrow>
          (if i \<ge> length files then Some (None, [])
           else
             let f = files ! i;
                 isLast = (int i = int (length files) - 1)
             in
               if Type f = ''file'' then
                 Option.bind
                   (runFrame nw accessToken owner repo maxDepth
                      (RangeFrame path indent level files (i + 1)))
                   (\<lambda>(r, es).
                      Some (r, Stdout (indent @ getFilePrefix isLast)
                                 # Stdout (Name f @ [CHR 0x0A]) # es))
               else if Type f = ''dir'' then
                 Option.bind
                   (runFrame nw accessToken owner repo maxDepth
                      (FetchFrame (path @ ''/'' @ Name f) (indent @ getIndentPrefix isLast)
                         (wrapInt64 (level + 1))))
                   (\<lambda>(r, sub).
                      case r of
                        Some p \<Rightarrow>
                          Some (Some p, Stdout (indent @ getDirPrefix isLast)
                                          # Stdout (Name f @ [CHR 0x0A]) # sub)
                      | None \<Rightarrow>
                          Option.bind
                            (runFrame nw accessToken owner repo maxDepth
                               (RangeFrame path indent level files (i + 1)))
                            (\<lambda>(r', es).
                               Some (r', Stdout (indent @ getDirPrefix isLast)
                                           # Stdout (Name f @ [CHR 0x0A]) # sub @ es)))
               else runFrame nw accessToken owner repo maxDepth
                      (RangeFrame path indent level files (i + 1))))"

definition fetchFilesAndFolders ::
    "net \<Rightarrow> string \<Rightarrow> string \<Rightarrow> string \<Rightarrow> string \<Rightarrow> string \<Rightarrow> int \<Rightarrow> int
      \<Rightarrow> (panic option \<times> event list) option" where
  "fetchFilesAndFolders nw accessToken owner repo path indent level maxDepth =
     runFrame nw accessToken owner repo maxDepth (FetchFrame path indent level)"

definition rangeFiles ::
    "net \<Rightarrow> string \<Rightarrow> string \<Rightarrow> string \<Rightarrow> string \<Rightarrow> string \<Rightarrow> int \<Rightarrow> int
      \<Rightarrow> File list \<Rightarrow> nat \<Rightarrow> (panic option \<times> event list) option" where
  "rangeFiles nw accessToken owner repo path indent level maxDepth files i =
     runFrame nw accessToken owner repo maxDepth (RangeFrame path indent level files i)"

section \<open>The settings file and \<open>main\<close>\<close>

text \<open>
  \<^verbatim>\<open>readInputsFromFile\<close>: the two panics, or the four fields of the parsed
  struct.
\<close>

definition readInputsFromFile :: "world \<Rightarrow> panic + inputs" where
  "readInputsFromFile w =
     (case inputsFile w of
        Absent \<Rightarrow> Inl ReadFileFailed
      | Unreadable \<Rightarrow> Inl ReadFileFailed
      | Malformed \<Rightarrow> Inl ParseInputsFailed
      | Stored s \<Rightarrow> Inr s)"

text \<open>
  \<^verbatim>\<open>updateInputsInFile\<close>: \<^verbatim>\<open>json.MarshalIndent\<close> of a struct of three strings and an
  int has no error; \<^verbatim>\<open>os.WriteFile\<close> creates or truncates the file, or fails.
\<close>

definition updateInputsInFile ::
    "world \<Rightarrow> string \<Rightarrow> string \<Rightarrow> string \<Rightarrow> int \<Rightarrow> panic + world" where
  "updateInputsInFile w owner repo path maxDepth =
     (let newInputs = \<lparr>Owner = owner, Repo = repo, Path = path, MaxDepth = maxDepth\<rparr>
      in if writable w then Inr (w\<lparr>inputsFile := Stored newInputs\<rparr>)
         else Inl WriteFileFailed)"

text \<open>
  \<^verbatim>\<open>main\<close>, branch by branch as in the source. The result is the machine as the run
  leaves it (the file is written before any fetch, so this is known also for a run
  that does not end), and, when the run ends, the panic that ended it (\<open>None\<close> when
  \<^verbatim>\<open>main\<close> returns) with the events of the run.
\<close>

definition main ::
    "net \<Rightarrow> flags \<Rightarrow> world \<Rightarrow> world \<times> (panic option \<times> event list) option" where
  "main nw fl w =
     (case cwd w of
        None \<Rightarrow> (w, Some (Some GetwdFailed, []))
      | Some currentDir \<Rightarrow>
          if inputsFile w \<noteq> Absent then
            (case readInputsFromFile w of
               Inl p \<Rightarrow> (w, Some (Some p, []))
             | Inr s \<Rightarrow>
                 if Owner s = [] \<or> Repo s = [] then (w, Some (Some EmptyOwnerOrRepo, []))
                 else
                   let currentMaxDepth = (if MaxDepth s < 1 then 1 else MaxDepth s);
                       currentOwner = (if ownerFlag fl \<noteq> [] then ownerFlag fl else Owner s);
                       currentRepo = (if repoFlag fl \<noteq> [] then repoFlag fl else Repo s);
                       currentPath = (if pathFlag fl \<noteq> [] then pathFlag fl else Path s);
                       currentMaxDepth = maxDepthFlag fl
                   in case updateInputsInFile w currentOwner currentRepo currentPath
                             currentMaxDepth of
                        Inl p \<Rightarrow> (w, Some (Some p, []))
                      | Inr w' \<Rightarrow>
                          let accessToken = accessTokenEnv w' in
                          if accessToken = [] then (w', Some (Some TokenNotFound, []))
                          else
                            (w', fetchFilesAndFolders nw accessToken currentOwner currentRepo
                                   currentPath [] 1 currentMaxDepth))
          else
            let maxDepthFlag' = (if maxDepthFlag fl = 0 then 1 else maxDepthFlag fl);
                newInputs = \<lparr>Owner = ownerFlag fl, Repo = repoFlag fl, Path = pathFlag fl,
                             MaxDepth = maxDepthFlag'\<rparr>
            in if \<not> writable w then (w, Some (Some WriteFileFailed, []))
               else
                 let w' = w\<lparr>inputsFile := Stored newInputs\<rparr>;
                     accessToken = accessTokenEnv w'
                 in if accessToken = [] then (w', Some (Some TokenNotFound, []))
                    else
                      (w', fetchFilesAndFolders nw accessToken (ownerFlag fl) (repoFlag fl)
                             (pathFlag fl) [] 1 maxDepthFlag'))"

section \<open>The specification's vocabulary\<close>

text \<open>
  The overlay of the flags on the stored settings, in the specification's words: a
  non-empty flag replaces the stored owner, repo or path, and maxDepth is the flag's
  value.
\<close>

definition overlay :: "flags \<Rightarrow> inputs \<Rightarrow> inputs" where
  "overlay fl s =
     \<lparr>Owner = (if ownerFlag fl \<noteq> [] then ownerFlag fl else Owner s),
      Repo = (if repoFlag fl \<noteq> [] then repoFlag fl else Repo s),
      Path = (if pathFlag fl \<noteq> [] then pathFlag fl else Path s),
      MaxDepth = maxDepthFlag fl\<rparr>"

text \<open>
  Running a list of steps in order, in the specification's words: each step's events
  follow those of the step before, and the first panic ends the run. A step that does
  not end leaves the run without a result.
\<close>

fun inOrder ::
    "(panic option \<times> event list) option list \<Rightarrow> (panic option \<times> event list) option" where
  "inOrder [] = Some (None, [])"
| "inOrder (None # rest) = None"
| "inOrder (Some (Some e, es) # rest) = Some (Some e, es)"
| "inOrder (Some (None, es) # rest) = map_option (\<lambda>(r, es'). (r, es @ es')) (inOrder rest)"

text \<open>
  The visit of one entry, in the specification's words: a file is one rendered line; a
  directory is one rendered line and then the fetch of its subtree, with the path
  extended by \<open>/name\<close>, the indent extended by the continuation glyph, and
  \<open>level+1\<close> (Go's sum); any other type is nothing.
\<close>

definition visit ::
    "net \<Rightarrow> string \<Rightarrow> string \<Rightarrow> string \<Rightarrow> string \<Rightarrow> string \<Rightarrow> int \<Rightarrow> int \<Rightarrow> File \<Rightarrow> bool
      \<Rightarrow> (panic option \<times> event list) option" where
  "visit nw tok ow rp p ind level maxDepth f isLast =
     (if Type f = ''file'' then
        Some (None, [Stdout (ind @ getFilePrefix isLast), Stdout (Name f @ [CHR 0x0A])])
      else if Type f = ''dir'' then
        map_option
          (\<lambda>(r, sub). (r, Stdout (ind @ getDirPrefix isLast) # Stdout (Name f @ [CHR 0x0A]) # sub))
          (fetchFilesAndFolders nw tok ow rp (p @ ''/'' @ Name f)
             (ind @ getIndentPrefix isLast) (wrapInt64 (level + 1)) maxDepth)
      else Some (None, []))"

subsection \<open>Concrete machines and networks\<close>

text \<open>A network that answers from a table of URLs, and a 404 body elsewhere.\<close>

definition tableNet :: "(string \<times> File list) list \<Rightarrow> net" where
  "tableNet tbl =
     \<lparr>newRequest = (\<lambda>url. True),
      roundTrip = (\<lambda>url authorization.
         case map_of tbl url of Some files \<Rightarrow> Entries files | None \<Rightarrow> UnmarshalError)\<rparr>"

definition emptyRepoNet :: net where
  "emptyRepoNet =
     \<lparr>newRequest = (\<lambda>url. True), roundTrip = (\<lambda>url authorization. Entries [])\<rparr>"

definition machineWith :: "inputsFile \<Rightarrow> string \<Rightarrow> world" where
  "machineWith f tok =
     \<lparr>cwd = Some ''/home/u'', inputsFile = f, writable = True, accessTokenEnv = tok\<rparr>"

text \<open>The repository \<open>o/r\<close> with a directory \<open>A\<close> holding a file \<open>C\<close>, and a file \<open>B\<close>.\<close>

definition repoAB :: "(string \<times> File list) list" where
  "repoAB =
     [(''https://api.github.com/repos/o/r/contents/'',
         [\<lparr>Name = ''A'', Type = ''dir''\<rparr>, \<lparr>Name = ''B'', Type = ''file''\<rparr>]),
      (''https://api.github.com/repos/o/r/contents//A'',
         [\<lparr>Name = ''C'', Type = ''file''\<rparr>])]"

section \<open>Unfolding the fetcher\<close>

text \<open>The two frames of \<open>runFrame\<close>, each as the source writes it.\<close>

lemma fetchFilesAndFolders_unfold:
  "fetchFilesAndFolders nw accessToken owner repo path indent level maxDepth =
     (if level > maxDepth then Some (None, [])
      else
        let url = contentsUrl owner repo path in
        if \<not> newRequest nw url then Some (Some NewRequestFailed, [])
        else
          let authorization = ''Bearer '' @ accessToken;
              req = HttpGet url authorization level
          in case roundTrip nw url authorization of
               DoError \<Rightarrow> Some (Some DoFailed, [req])
             | ReadAllError \<Rightarrow> Some (Some ReadAllFailed, [req])
             | UnmarshalError \<Rightarrow> Some (Some UnmarshalFailed, [req])
             | Entries files \<Rightarrow>
                 Option.bind
                   (rangeFiles nw accessToken owner repo path indent level maxDepth files 0)
                   (\<lambda>(r, es). Some (r, req # es)))"
  unfolding fetchFilesAndFolders_def rangeFiles_def
  by (subst runFrame.simps) (simp only: frame.case)

lemma rangeFiles_unfold:
  "rangeFiles nw accessToken owner repo path indent level maxDepth files i =
     (if i \<ge> length files then Some (None, [])
      else
        let f = files ! i;
            isLast = (int i = int (length files) - 1)
        in
          if Type f = ''file'' then
            Option.bind
              (rangeFiles nw accessToken owner repo path indent level maxDepth files (i + 1))
              (\<lambda>(r, es).
                 Some (r, Stdout (indent @ getFilePrefix isLast)
                            # Stdout (Name f @ [CHR 0x0A]) # es))
          else if Type f = ''dir'' then
            Option.bind
              (fetchFilesAndFolders nw accessToken owner repo (path @ ''/'' @ Name f)
                 (indent @ getIndentPrefix isLast) (wrapInt64 (level + 1)) maxDepth)
              (\<lambda>(r, sub).
                 case r of
                   Some p \<Rightarrow>
                     Some (Some p, Stdout (indent @ getDirPrefix isLast)
                                     # Stdout (Name f @ [CHR 0x0A]) # sub)
                 | None \<Rightarrow>
                     Option.bind
                       (rangeFiles nw accessToken owner repo path indent level maxDepth files
                          (i + 1))
                       (\<lambda>(r', es).
                          Some (r', Stdout (indent @ getDirPrefix isLast)
                                      # Stdout (Name f @ [CHR 0x0A]) # sub @ es)))
          else rangeFiles nw accessToken owner repo path indent level maxDepth files (i + 1))"
  unfolding fetchFilesAndFolders_def rangeFiles_def
  by (subst runFrame.simps) (simp only: frame.case)

lemma bind_Some_pair:
  "Option.bind x (\<lambda>(r, es). Some (f r es)) = map_option (\<lambda>(r, es). f r es) x"
  by (cases x) auto

lemma fetch_stop:
  "maxDepth < level \<Longrightarrow>
   fetchFilesAndFolders nw tok ow rp p ind level maxDepth = Some (None, [])"
  by (simp add: fetchFilesAndFolders_unfold)

lemma fetch_bad_url:
  "\<not> maxDepth < level \<Longrightarrow> \<not> newRequest nw (contentsUrl ow rp p) \<Longrightarrow>
   fetchFilesAndFolders nw tok ow rp p ind level maxDepth = Some (Some NewRequestFailed, [])"
  by (simp add: fetchFilesAndFolders_unfold)

lemma fetch_entries:
  "\<not> maxDepth < level \<Longrightarrow> newRequest nw (contentsUrl ow rp p) \<Longrightarrow>
   roundTrip nw (contentsUrl ow rp p) (''Bearer '' @ tok) = Entries files \<Longrightarrow>
   fetchFilesAndFolders nw tok ow rp p ind level maxDepth =
     map_option (\<lambda>(r, es). (r, HttpGet (contentsUrl ow rp p) (''Bearer '' @ tok) level # es))
       (rangeFiles nw tok ow rp p ind level maxDepth files 0)"
  by (subst fetchFilesAndFolders_unfold) (simp add: Let_def bind_Some_pair)

lemma range_done:
  "length files \<le> i \<Longrightarrow>
   rangeFiles nw tok ow rp p ind level maxDepth files i = Some (None, [])"
  by (simp add: rangeFiles_unfold)

lemma range_file:
  "i < length files \<Longrightarrow> Type (files ! i) = ''file'' \<Longrightarrow>
   rangeFiles nw tok ow rp p ind level maxDepth files i =
     map_option
       (\<lambda>(r, es). (r, Stdout (ind @ getFilePrefix (int i = int (length files) - 1))
                        # Stdout (Name (files ! i) @ [CHR 0x0A]) # es))
       (rangeFiles nw tok ow rp p ind level maxDepth files (i + 1))"
  by (subst rangeFiles_unfold) (simp add: Let_def bind_Some_pair)

lemma range_dir_none:
  "i < length files \<Longrightarrow> Type (files ! i) = ''dir'' \<Longrightarrow>
   fetchFilesAndFolders nw tok ow rp (p @ ''/'' @ Name (files ! i))
     (ind @ getIndentPrefix (int i = int (length files) - 1))
     (wrapInt64 (level + 1)) maxDepth = None \<Longrightarrow>
   rangeFiles nw tok ow rp p ind level maxDepth files i = None"
  by (subst rangeFiles_unfold) (simp add: Let_def)

lemma range_dir_panic:
  "i < length files \<Longrightarrow> Type (files ! i) = ''dir'' \<Longrightarrow>
   fetchFilesAndFolders nw tok ow rp (p @ ''/'' @ Name (files ! i))
     (ind @ getIndentPrefix (int i = int (length files) - 1))
     (wrapInt64 (level + 1)) maxDepth = Some (Some e, sub) \<Longrightarrow>
   rangeFiles nw tok ow rp p ind level maxDepth files i =
     Some (Some e, Stdout (ind @ getDirPrefix (int i = int (length files) - 1))
                     # Stdout (Name (files ! i) @ [CHR 0x0A]) # sub)"
  by (subst rangeFiles_unfold) (simp add: Let_def)

lemma range_dir_done:
  "i < length files \<Longrightarrow> Type (files ! i) = ''dir'' \<Longrightarrow>
   fetchFilesAndFolders nw tok ow rp (p @ ''/'' @ Name (files ! i))
     (ind @ getIndentPrefix (int i = int (length files) - 1))
     (wrapInt64 (level + 1)) maxDepth = Some (None, sub) \<Longrightarrow>
   rangeFiles nw tok ow rp p ind level maxDepth files i =
     map_option
       (\<lambda>(r, es). (r, Stdout (ind @ getDirPrefix (int i = int (length files) - 1))
                        # Stdout (Name (files ! i) @ [CHR 0x0A]) # sub @ es))
       (rangeFiles nw tok ow rp p ind level maxDepth files (i + 1))"
  by (subst rangeFiles_unfold) (simp add: Let_def bind_Some_pair)

lemma range_other:
  "i < length files \<Longrightarrow> Type (files ! i) \<noteq> ''file'' \<Longrightarrow> Type (files ! i) \<noteq> ''dir'' \<Longrightarrow>
   rangeFiles nw tok ow rp p ind level maxDepth files i =
     rangeFiles nw tok ow rp p ind level maxDepth files (i + 1)"
  by (subst rangeFiles_unfold) (simp add: Let_def)

lemma wrapInt64_id: "- (2 ^ 63) \<le> x \<Longrightarrow> x < 2 ^ 63 \<Longrightarrow> wrapInt64 x = x"
  by (simp add: wrapInt64_def)

lemma wrapInt64_range: "- (2 ^ 63) \<le> wrapInt64 x \<and> wrapInt64 x < 2 ^ 63"
  by (simp add: wrapInt64_def)

lemma wrapInt64_max: "wrapInt64 (9223372036854775807 + 1) = - 9223372036854775808"
  by (simp add: wrapInt64_def)

text \<open>What a frame can end with, and when it is sure to end.\<close>

lemma runFrame_panic_kinds:
  assumes "runFrame nw tok ow rp maxDepth fr = Some y"
  shows "fst y \<in> {None, Some NewRequestFailed, Some DoFailed, Some ReadAllFailed,
                   Some UnmarshalFailed}"
proof (rule runFrame.raw_induct
    [where P = "\<lambda>nw tok ow rp maxDepth fr y.
        fst y \<in> {None, Some NewRequestFailed, Some DoFailed, Some ReadAllFailed,
                  Some UnmarshalFailed}", OF _ assms], goal_cases)
  case (1 run nw tok ow rp maxDepth fr y)
  have IH: "r \<in> {None, Some NewRequestFailed, Some DoFailed, Some ReadAllFailed,
                  Some UnmarshalFailed}"
    if "run nw' tok' ow' rp' maxDepth' fr' = Some (r, es)" for nw' tok' ow' rp' maxDepth' fr' r es
    using 1(1) [OF that] by simp
  show ?case
  proof (cases fr)
    case (FetchFrame path indent level)
    with 1(2) show ?thesis
      by (auto simp: Let_def split: if_splits reply.splits bind_splits dest: IH)
  next
    case (RangeFrame path indent level files i)
    with 1(2) show ?thesis
      by (auto simp: Let_def split: if_splits bind_splits option.splits dest!: IH 1(1))
  qed
qed

lemma fetch_not_owner_panic:
  "fetchFilesAndFolders nw tok ow rp p ind level maxDepth \<noteq> Some (Some EmptyOwnerOrRepo, es)"
  using runFrame_panic_kinds [of nw tok ow rp maxDepth "FetchFrame p ind level"
      "(Some EmptyOwnerOrRepo, es)"]
  by (auto simp: fetchFilesAndFolders_def)

lemma levelsOf_append: "levelsOf (a @ b) = levelsOf a @ levelsOf b"
  by (induction a rule: levelsOf.induct) simp_all

lemma range_returns_from_fetch:
  assumes sub: "\<And>q ind'. \<exists>r es.
      fetchFilesAndFolders nw tok ow rp q ind' (wrapInt64 (level + 1)) maxDepth = Some (r, es)
      \<and> (\<forall>l \<in> set (levelsOf es). lo \<le> l \<and> l \<le> maxDepth)"
  shows "\<exists>r es. rangeFiles nw tok ow rp p ind level maxDepth files i = Some (r, es)
      \<and> (\<forall>l \<in> set (levelsOf es). lo \<le> l \<and> l \<le> maxDepth)"
proof (induction "length files - i" arbitrary: i)
  case 0
  then show ?case by (simp add: range_done)
next
  case (Suc k)
  then have lt: "i < length files" and k: "k = length files - (i + 1)"
    by simp_all
  from Suc(1) [OF k] obtain r' es' where
    next_ok: "rangeFiles nw tok ow rp p ind level maxDepth files (i + 1) = Some (r', es')"
    and next_lv: "\<forall>l \<in> set (levelsOf es'). lo \<le> l \<and> l \<le> maxDepth"
    by blast
  consider (isfile) "Type (files ! i) = ''file''" | (isdir) "Type (files ! i) = ''dir''"
    | (other) "Type (files ! i) \<noteq> ''file''" and "Type (files ! i) \<noteq> ''dir''"
    by blast
  then show ?case
  proof cases
    case isfile
    with lt next_ok next_lv show ?thesis
      by (simp add: range_file)
  next
    case isdir
    from sub obtain r s where
      f: "fetchFilesAndFolders nw tok ow rp (p @ ''/'' @ Name (files ! i))
            (ind @ getIndentPrefix (int i = int (length files) - 1))
            (wrapInt64 (level + 1)) maxDepth = Some (r, s)"
      and flv: "\<forall>l \<in> set (levelsOf s). lo \<le> l \<and> l \<le> maxDepth"
      by blast
    show ?thesis
    proof (cases r)
      case None
      with f range_dir_done [OF lt isdir, of nw tok ow rp p ind level maxDepth s]
        next_ok next_lv flv
      show ?thesis by (auto simp: levelsOf_append)
    next
      case (Some e)
      with f range_dir_panic [OF lt isdir, of nw tok ow rp p ind level maxDepth e s] flv
      show ?thesis by auto
    qed
  next
    case other
    with lt next_ok next_lv show ?thesis
      by (simp add: range_other)
  qed
qed

lemma fetch_returns_bounded:
  assumes md: "maxDepth < 2 ^ 63 - 1"
  shows "- (2 ^ 63) \<le> level \<Longrightarrow>
     \<exists>r es. fetchFilesAndFolders nw tok ow rp p ind level maxDepth = Some (r, es)
       \<and> (\<forall>l \<in> set (levelsOf es). level \<le> l \<and> l \<le> maxDepth)"
proof (induction "nat (maxDepth + 1 - level)" arbitrary: level p ind)
  case 0
  then have "maxDepth < level" by simp
  then show ?case by (simp add: fetch_stop)
next
  case (Suc n)
  then have deep: "\<not> maxDepth < level" and n: "n = nat (maxDepth + 1 - (level + 1))"
    by simp_all
  from deep md Suc(3) have w: "wrapInt64 (level + 1) = level + 1"
    by (intro wrapInt64_id) simp_all
  have sub: "\<exists>r es.
      fetchFilesAndFolders nw tok ow rp q ind' (wrapInt64 (level + 1)) maxDepth = Some (r, es)
      \<and> (\<forall>l \<in> set (levelsOf es). level \<le> l \<and> l \<le> maxDepth)" for q ind'
  proof -
    from Suc(3) have "- (2 ^ 63) \<le> level + 1" by simp
    from Suc(1) [OF n this, of q ind'] show ?thesis
      unfolding w by force
  qed
  show ?case
  proof (cases "newRequest nw (contentsUrl ow rp p)")
    case False
    with deep show ?thesis by (simp add: fetch_bad_url)
  next
    case True
    show ?thesis
    proof (cases "roundTrip nw (contentsUrl ow rp p) (''Bearer '' @ tok)")
      case (Entries files)
      from range_returns_from_fetch [of nw tok ow rp level maxDepth level p ind files 0, OF sub]
      obtain r es where "rangeFiles nw tok ow rp p ind level maxDepth files 0 = Some (r, es)"
        and "\<forall>l \<in> set (levelsOf es). level \<le> l \<and> l \<le> maxDepth"
        by blast
      with fetch_entries [OF deep True Entries, of ind] deep show ?thesis
        by simp
    qed (insert deep, simp_all add: fetchFilesAndFolders_unfold True)
  qed
qed

lemma range_returns:
  assumes md: "maxDepth < 2 ^ 63 - 1"
  shows "\<exists>y. rangeFiles nw tok ow rp p ind level maxDepth files i = Some y"
proof -
  have "\<exists>r es.
      fetchFilesAndFolders nw tok ow rp q ind' (wrapInt64 (level + 1)) maxDepth = Some (r, es)
      \<and> (\<forall>l \<in> set (levelsOf es). wrapInt64 (level + 1) \<le> l \<and> l \<le> maxDepth)" for q ind'
    using fetch_returns_bounded [OF md, of "wrapInt64 (level + 1)"] wrapInt64_range
    by blast
  from range_returns_from_fetch [of nw tok ow rp level maxDepth _ p ind files i, OF this]
  show ?thesis by blast
qed

text \<open>The loop as a whole, from any index on.\<close>

lemma isLast_nat: "(int i = int n - 1) = (Suc i = n)"
  by auto

lemma range_in_order_from:
  "rangeFiles nw tok ow rp p ind level maxDepth files i =
     inOrder (map (\<lambda>j. visit nw tok ow rp p ind level maxDepth (files ! j)
                         (Suc j = length files)) [i..<length files])"
proof (induction "length files - i" arbitrary: i)
  case 0
  then show ?case by (simp add: range_done)
next
  case (Suc k)
  then have lt: "i < length files" and k: "k = length files - (i + 1)"
    by simp_all
  note IH = Suc(1) [OF k]
  let ?rest = "map (\<lambda>j. visit nw tok ow rp p ind level maxDepth (files ! j)
                         (Suc j = length files)) [i + 1..<length files]"
  let ?v = "visit nw tok ow rp p ind level maxDepth (files ! i) (Suc i = length files)"
  have upt: "map (\<lambda>j. visit nw tok ow rp p ind level maxDepth (files ! j)
                         (Suc j = length files)) [i..<length files] = ?v # ?rest"
    using lt by (simp add: upt_conv_Cons)
  consider (isfile) "Type (files ! i) = ''file''" | (isdir) "Type (files ! i) = ''dir''"
    | (other) "Type (files ! i) \<noteq> ''file''" and "Type (files ! i) \<noteq> ''dir''"
    by blast
  then show ?case
  proof cases
    case isfile
    then have "?v = Some (None, [Stdout (ind @ getFilePrefix (Suc i = length files)),
                                 Stdout (Name (files ! i) @ [CHR 0x0A])])"
      by (simp add: visit_def)
    with lt isfile IH show ?thesis
      by (simp add: range_file upt isLast_nat)
  next
    case isdir
    let ?sub = "fetchFilesAndFolders nw tok ow rp (p @ ''/'' @ Name (files ! i))
        (ind @ getIndentPrefix (int i = int (length files) - 1)) (wrapInt64 (level + 1)) maxDepth"
    from isdir have v: "?v = map_option
        (\<lambda>(r, sub). (r, Stdout (ind @ getDirPrefix (Suc i = length files))
                         # Stdout (Name (files ! i) @ [CHR 0x0A]) # sub)) ?sub"
      by (simp add: visit_def isLast_nat)
    show ?thesis
    proof (cases ?sub)
      case None
      from range_dir_none [OF lt isdir None] None show ?thesis
        by (simp add: upt v)
    next
      case (Some y)
      obtain r sub where y: "y = (r, sub)" by (cases y)
      show ?thesis
      proof (cases r)
        case None
        from range_dir_done [OF lt isdir Some [unfolded y None]] Some y None IH
        show ?thesis
          by (simp add: upt v isLast_nat)
      next
        case e: (Some e)
        from range_dir_panic [OF lt isdir Some [unfolded y e]] Some y e
        show ?thesis
          by (simp add: upt v isLast_nat)
      qed
    qed
  next
    case other
    then have "?v = Some (None, [])"
      by (simp add: visit_def)
    with lt other IH show ?thesis
      by (simp add: range_other upt option.map_id)
  qed
qed

lemma range_line_first:
  assumes "i < length files"
    and "Type (files ! i) = ''file'' \<or> Type (files ! i) = ''dir''"
    and "rangeFiles nw tok ow rp p ind level maxDepth files i = Some (r, es)"
  shows "\<exists>rest. es =
           Stdout (ind @ getFilePrefix (Suc i = length files))
             # Stdout (Name (files ! i) @ [CHR 0x0A]) # rest"
proof -
  have same: "getDirPrefix b = getFilePrefix b" for b
    by (simp add: getDirPrefix_def getFilePrefix_def)
  from assms(2) show ?thesis
  proof
    assume "Type (files ! i) = ''file''"
    with assms(1) assms(3) have "map_option
       (\<lambda>(r, es). (r, Stdout (ind @ getFilePrefix (int i = int (length files) - 1))
                        # Stdout (Name (files ! i) @ [CHR 0x0A]) # es))
       (rangeFiles nw tok ow rp p ind level maxDepth files (i + 1)) = Some (r, es)"
      by (simp add: range_file)
    then show ?thesis
      by (auto simp: isLast_nat)
  next
    assume isdir: "Type (files ! i) = ''dir''"
    show ?thesis
    proof (cases "fetchFilesAndFolders nw tok ow rp (p @ ''/'' @ Name (files ! i))
        (ind @ getIndentPrefix (int i = int (length files) - 1)) (wrapInt64 (level + 1)) maxDepth")
      case None
      from range_dir_none [OF assms(1) isdir None] assms(3) show ?thesis by simp
    next
      case (Some y)
      obtain r' sub where y: "y = (r', sub)" by (cases y)
      show ?thesis
      proof (cases r')
        case None
        from range_dir_done [OF assms(1) isdir Some [unfolded y None]] assms(3)
        have "map_option
           (\<lambda>(r, es). (r, Stdout (ind @ getDirPrefix (int i = int (length files) - 1))
                        # Stdout (Name (files ! i) @ [CHR 0x0A]) # sub @ es))
           (rangeFiles nw tok ow rp p ind level maxDepth files (i + 1)) = Some (r, es)"
          by simp
        then show ?thesis by (auto simp: isLast_nat same)
      next
        case e: (Some e)
        from range_dir_panic [OF assms(1) isdir Some [unfolded y e]] assms(3)
        show ?thesis by (auto simp: isLast_nat same)
      qed
    qed
  qed
qed

section \<open>The config resolver\<close>

text \<open>
  C1 (as amended). When the settings file exists and parses, the run ends with the
  owner/repo error exactly when the owner or the repo stored in the file is empty,
  whatever the flags are: the check is made on the values read from the file, before
  the flags are overlaid.
\<close>

theorem main_checks_stored_owner_repo:
  assumes "cwd w = Some d" and "inputsFile w = Stored s"
  shows "map_option fst (snd (main nw fl w)) = Some (Some EmptyOwnerOrRepo)
           \<longleftrightarrow> Owner s = [] \<or> Repo s = []"
proof (cases "Owner s = [] \<or> Repo s = []")
  case True
  with assms show ?thesis
    by (simp add: main_def readInputsFromFile_def)
next
  case False
  have "map_option fst (fetchFilesAndFolders nw tok ow rp p ind level maxDepth)
          \<noteq> Some (Some EmptyOwnerOrRepo)" for tok ow rp p ind level maxDepth
    using fetch_not_owner_panic [of nw tok ow rp p ind level maxDepth] by auto
  with False assms show ?thesis
    by (simp add: main_def readInputsFromFile_def updateInputsInFile_def Let_def)
qed

theorem main_checks_stored_owner_repo_witness:
  "cwd (machineWith (Stored \<lparr>Owner = ''o'', Repo = ''r'', Path = [], MaxDepth = 1\<rparr>) ''t'')
     = Some ''/home/u''
   \<and> inputsFile (machineWith (Stored \<lparr>Owner = ''o'', Repo = ''r'', Path = [], MaxDepth = 1\<rparr>) ''t'')
     = Stored \<lparr>Owner = ''o'', Repo = ''r'', Path = [], MaxDepth = 1\<rparr>
   \<and> map_option fst (snd (main emptyRepoNet
         \<lparr>ownerFlag = [], repoFlag = [], pathFlag = [], maxDepthFlag = 1\<rparr>
         (machineWith (Stored \<lparr>Owner = ''o'', Repo = ''r'', Path = [], MaxDepth = 1\<rparr>) ''t'')))
     \<noteq> Some (Some EmptyOwnerOrRepo)"
  using main_checks_stored_owner_repo
    [of "machineWith (Stored \<lparr>Owner = ''o'', Repo = ''r'', Path = [], MaxDepth = 1\<rparr>) ''t''"
        "''/home/u''" "\<lparr>Owner = ''o'', Repo = ''r'', Path = [], MaxDepth = 1\<rparr>"
        emptyRepoNet "\<lparr>ownerFlag = [], repoFlag = [], pathFlag = [], maxDepthFlag = 1\<rparr>"]
  by (simp add: machineWith_def)

text \<open>
  C1 as written fails: with an empty owner in the file and the owner flag \<open>o\<close>, owner
  and repo are both non-empty after the overlay, and the run still ends with the
  owner/repo error, before anything is written or fetched.
\<close>

theorem empty_stored_owner_fails_despite_flag:
  "main emptyRepoNet \<lparr>ownerFlag = ''o'', repoFlag = [], pathFlag = [], maxDepthFlag = 1\<rparr>
      (machineWith (Stored \<lparr>Owner = [], Repo = ''r'', Path = [], MaxDepth = 1\<rparr>) ''t'')
     = (machineWith (Stored \<lparr>Owner = [], Repo = ''r'', Path = [], MaxDepth = 1\<rparr>) ''t'',
        Some (Some EmptyOwnerOrRepo, []))
   \<and> Owner (overlay \<lparr>ownerFlag = ''o'', repoFlag = [], pathFlag = [], maxDepthFlag = 1\<rparr>
               \<lparr>Owner = [], Repo = ''r'', Path = [], MaxDepth = 1\<rparr>) \<noteq> []
   \<and> Repo (overlay \<lparr>ownerFlag = ''o'', repoFlag = [], pathFlag = [], maxDepthFlag = 1\<rparr>
               \<lparr>Owner = [], Repo = ''r'', Path = [], MaxDepth = 1\<rparr>) \<noteq> []"
  by (simp add: main_def machineWith_def readInputsFromFile_def overlay_def)

text \<open>
  C2, at the input where the code leaves it: no settings file, empty owner and repo
  flags, a token in the environment. The run writes the empty owner and repo to the
  file and sends a request for \<^verbatim>\<open>/repos///contents/\<close>; no panic is raised.
\<close>

theorem missing_file_empty_owner_fetches:
  "main emptyRepoNet \<lparr>ownerFlag = [], repoFlag = [], pathFlag = [], maxDepthFlag = 1\<rparr>
      (machineWith Absent ''t'')
     = (machineWith (Stored \<lparr>Owner = [], Repo = [], Path = [], MaxDepth = 1\<rparr>) ''t'',
        Some (None, [HttpGet ''https://api.github.com/repos///contents/'' ''Bearer t'' 1]))"
  by (simp add: main_def machineWith_def emptyRepoNet_def contentsUrl_def Let_def
      fetchFilesAndFolders_unfold rangeFiles_unfold)

text \<open>
  C3, at two inputs where the code leaves it. With a settings file and the flag
  \<open>-M 0\<close>, the stored depth 3 is replaced by 0, which is written to the file and
  passed to the fetcher (no request follows). With no settings file and the flag
  \<open>-M -3\<close>, the depth \<open>-3\<close> is written and passed on.
\<close>

theorem maxDepth_below_one_persisted:
  "main emptyRepoNet \<lparr>ownerFlag = [], repoFlag = [], pathFlag = [], maxDepthFlag = 0\<rparr>
      (machineWith (Stored \<lparr>Owner = ''o'', Repo = ''r'', Path = [], MaxDepth = 3\<rparr>) ''t'')
     = (machineWith (Stored \<lparr>Owner = ''o'', Repo = ''r'', Path = [], MaxDepth = 0\<rparr>) ''t'',
        Some (None, []))
   \<and> main emptyRepoNet \<lparr>ownerFlag = ''o'', repoFlag = ''r'', pathFlag = [], maxDepthFlag = - 3\<rparr>
      (machineWith Absent ''t'')
     = (machineWith (Stored \<lparr>Owner = ''o'', Repo = ''r'', Path = [], MaxDepth = - 3\<rparr>) ''t'',
        Some (None, []))"
  by (simp add: main_def machineWith_def readInputsFromFile_def updateInputsInFile_def
      Let_def fetchFilesAndFolders_unfold)

text \<open>
  C4. With settings in the file whose owner and repo are non-empty, a run with empty
  owner, repo and path flags fetches with the stored owner, repo and path and with the
  maxDepth flag of this run, and rewrites the file with the same owner, repo and path
  and that maxDepth, whatever maxDepth was stored. (The file is rewritten before the
  token is looked up, so this holds with and without a token.)
\<close>

theorem second_run_keeps_owner_repo_path:
  assumes "cwd w = Some d" and "inputsFile w = Stored s"
    and "Owner s \<noteq> []" and "Repo s \<noteq> []" and "writable w"
    and "ownerFlag fl = []" and "repoFlag fl = []" and "pathFlag fl = []"
  shows "main nw fl w =
     (w\<lparr>inputsFile := Stored (s\<lparr>MaxDepth := maxDepthFlag fl\<rparr>)\<rparr>,
      if accessTokenEnv w = [] then Some (Some TokenNotFound, [])
      else fetchFilesAndFolders nw (accessTokenEnv w) (Owner s) (Repo s) (Path s) [] 1
             (maxDepthFlag fl))"
  using assms
  by (simp add: main_def readInputsFromFile_def updateInputsInFile_def Let_def)

theorem second_run_keeps_owner_repo_path_witness:
  "cwd (machineWith (Stored \<lparr>Owner = ''o'', Repo = ''r'', Path = ''src'', MaxDepth = 5\<rparr>) ''t'')
     = Some ''/home/u''
   \<and> writable (machineWith (Stored \<lparr>Owner = ''o'', Repo = ''r'', Path = ''src'', MaxDepth = 5\<rparr>) ''t'')
   \<and> main emptyRepoNet \<lparr>ownerFlag = [], repoFlag = [], pathFlag = [], maxDepthFlag = 2\<rparr>
        (machineWith (Stored \<lparr>Owner = ''o'', Repo = ''r'', Path = ''src'', MaxDepth = 5\<rparr>) ''t'')
     = (machineWith (Stored \<lparr>Owner = ''o'', Repo = ''r'', Path = ''src'', MaxDepth = 2\<rparr>) ''t'',
        Some (None, [HttpGet ''https://api.github.com/repos/o/r/contents/src'' ''Bearer t'' 1]))"
  using second_run_keeps_owner_repo_path
    [of "machineWith (Stored \<lparr>Owner = ''o'', Repo = ''r'', Path = ''src'', MaxDepth = 5\<rparr>) ''t''"
        "''/home/u''" "\<lparr>Owner = ''o'', Repo = ''r'', Path = ''src'', MaxDepth = 5\<rparr>"
        "\<lparr>ownerFlag = [], repoFlag = [], pathFlag = [], maxDepthFlag = 2\<rparr>" emptyRepoNet]
  by (simp add: machineWith_def emptyRepoNet_def contentsUrl_def Let_def
      fetchFilesAndFolders_unfold rangeFiles_unfold)

text \<open>
  C10. The settings are written before the token is looked up: a run without a token
  ends with the token panic, with no request and no output, and with the file already
  created from the flags (when there was none) or overwritten with the overlay of the
  flags on the stored settings (when there was one with owner and repo).
\<close>

theorem settings_written_before_token_check:
  assumes "cwd w = Some d" and "writable w" and "accessTokenEnv w = []"
  shows "(inputsFile w = Absent \<longrightarrow>
            main nw fl w =
              (w\<lparr>inputsFile := Stored \<lparr>Owner = ownerFlag fl, Repo = repoFlag fl,
                    Path = pathFlag fl,
                    MaxDepth = (if maxDepthFlag fl = 0 then 1 else maxDepthFlag fl)\<rparr>\<rparr>,
               Some (Some TokenNotFound, [])))
       \<and> (\<forall>s. inputsFile w = Stored s \<and> Owner s \<noteq> [] \<and> Repo s \<noteq> [] \<longrightarrow>
            main nw fl w =
              (w\<lparr>inputsFile := Stored (overlay fl s)\<rparr>, Some (Some TokenNotFound, [])))"
  using assms
  by (simp add: main_def readInputsFromFile_def updateInputsInFile_def Let_def overlay_def)

theorem settings_written_before_token_check_witness:
  "main emptyRepoNet \<lparr>ownerFlag = ''o'', repoFlag = ''r'', pathFlag = [], maxDepthFlag = 2\<rparr>
      (machineWith Absent [])
     = (machineWith (Stored \<lparr>Owner = ''o'', Repo = ''r'', Path = [], MaxDepth = 2\<rparr>) [],
        Some (Some TokenNotFound, []))
   \<and> main emptyRepoNet \<lparr>ownerFlag = [], repoFlag = ''q'', pathFlag = [], maxDepthFlag = 4\<rparr>
      (machineWith (Stored \<lparr>Owner = ''o'', Repo = ''r'', Path = ''src'', MaxDepth = 2\<rparr>) [])
     = (machineWith (Stored \<lparr>Owner = ''o'', Repo = ''q'', Path = ''src'', MaxDepth = 4\<rparr>) [],
        Some (Some TokenNotFound, []))"
  using settings_written_before_token_check
    [of "machineWith Absent []" "''/home/u''" emptyRepoNet
        "\<lparr>ownerFlag = ''o'', repoFlag = ''r'', pathFlag = [], maxDepthFlag = 2\<rparr>"]
    settings_written_before_token_check
    [of "machineWith (Stored \<lparr>Owner = ''o'', Repo = ''r'', Path = ''src'', MaxDepth = 2\<rparr>) []"
        "''/home/u''" emptyRepoNet
        "\<lparr>ownerFlag = [], repoFlag = ''q'', pathFlag = [], maxDepthFlag = 4\<rparr>"]
  by (simp add: machineWith_def overlay_def)

section \<open>The tree fetcher\<close>

text \<open>
  C5 (as amended). When \<open>level > maxDepth\<close>, \<^verbatim>\<open>fetchFilesAndFolders\<close> returns at
  once, with no request and no output. Every recursive call passes \<open>level+1\<close> in Go's
  arithmetic and the same \<open>maxDepth\<close>; so for every \<open>maxDepth\<close> below \<open>2^63 - 1\<close> the
  call returns, and every request it makes is issued at a level between the call's
  own level and \<open>maxDepth\<close>: the recursion ends and never goes past the bound.
\<close>

theorem fetch_stops_past_maxDepth:
  "(maxDepth < level \<longrightarrow>
      fetchFilesAndFolders nw tok ow rp p ind level maxDepth = Some (None, []))
   \<and> (- (2 ^ 63) \<le> level \<and> maxDepth < 2 ^ 63 - 1 \<longrightarrow>
        (\<exists>r es. fetchFilesAndFolders nw tok ow rp p ind level maxDepth = Some (r, es)
           \<and> (\<forall>l \<in> set (levelsOf es). level \<le> l \<and> l \<le> maxDepth)))"
proof (intro conjI impI)
  assume "maxDepth < level"
  then show "fetchFilesAndFolders nw tok ow rp p ind level maxDepth = Some (None, [])"
    by (rule fetch_stop)
next
  assume "- (2 ^ 63) \<le> level \<and> maxDepth < 2 ^ 63 - 1"
  then show "\<exists>r es. fetchFilesAndFolders nw tok ow rp p ind level maxDepth = Some (r, es)
           \<and> (\<forall>l \<in> set (levelsOf es). level \<le> l \<and> l \<le> maxDepth)"
    using fetch_returns_bounded [of maxDepth level nw tok ow rp p ind] by blast
qed

theorem fetch_stops_past_maxDepth_witness:
  "(1::int) < 2
   \<and> fetchFilesAndFolders (tableNet repoAB) ''t'' ''o'' ''r'' ''/A'' ''    '' 2 1 = Some (None, [])
   \<and> - (2 ^ 63) \<le> (1::int) \<and> (2::int) < 2 ^ 63 - 1
   \<and> map_option (levelsOf \<circ> snd)
        (fetchFilesAndFolders (tableNet repoAB) ''t'' ''o'' ''r'' [] [] 1 2) = Some [1, 2]
   \<and> (1::int) \<le> 1 \<and> (1::int) \<le> 2 \<and> (2::int) \<le> 2"
  using fetch_stops_past_maxDepth [of 1 2 "tableNet repoAB" "''t''" "''o''" "''r''" "''/A''" "''    ''"]
    fetch_stops_past_maxDepth [of 2 1 "tableNet repoAB" "''t''" "''o''" "''r''" "[]" "[]"]
  by (simp add: tableNet_def repoAB_def contentsUrl_def Let_def wrapInt64_def
      fetchFilesAndFolders_unfold rangeFiles_unfold)

text \<open>
  C5 as written fails for \<open>maxDepth = 2^63 - 1\<close>. A call at \<open>level = maxDepth = 2^63 - 1\<close>
  is at the bound, and the call it makes for the directory \<open>A\<close> should return at once;
  but \<open>level+1\<close> is \<open>-2^63\<close>, the guard does not hold, and the contents of \<open>A\<close> are
  requested and printed.
\<close>

theorem fetch_goes_past_bound_at_max_int:
  "fetchFilesAndFolders (tableNet repoAB) ''t'' ''o'' ''r'' [] []
       9223372036854775807 9223372036854775807
     = Some (None,
         [HttpGet ''https://api.github.com/repos/o/r/contents/'' ''Bearer t''
            9223372036854775807,
          Stdout (getDirPrefix False), Stdout (''A'' @ [CHR 0x0A]),
          HttpGet ''https://api.github.com/repos/o/r/contents//A'' ''Bearer t''
            (- 9223372036854775808),
          Stdout (getIndentPrefix False @ getFilePrefix True), Stdout (''C'' @ [CHR 0x0A]),
          Stdout (getFilePrefix True), Stdout (''B'' @ [CHR 0x0A])])"
  by (simp add: tableNet_def repoAB_def contentsUrl_def Let_def wrapInt64_def
      fetchFilesAndFolders_unfold rangeFiles_unfold)

text \<open>
  C6. With \<open>maxDepth = 1\<close>, an empty path and the reply \<open>[{A,dir},{B,file}]\<close>, the
  fetch makes exactly one request and writes exactly the two lines
  \<open>U+251C U+2500 U+2500 space A\<close> and \<open>U+2514 U+2500 U+2500 space B\<close>, in that order
  (the glyphs as their UTF-8 bytes); the call for \<open>A\<close> is at level 2 and returns at
  once.
\<close>

theorem depth_one_listing:
  assumes "newRequest nw (contentsUrl ow rp [])"
    and "roundTrip nw (contentsUrl ow rp []) (''Bearer '' @ tok) =
           Entries [\<lparr>Name = ''A'', Type = ''dir''\<rparr>, \<lparr>Name = ''B'', Type = ''file''\<rparr>]"
  shows "fetchFilesAndFolders nw tok ow rp [] [] 1 1 =
           Some (None,
            [HttpGet (contentsUrl ow rp []) (''Bearer '' @ tok) 1,
             Stdout (glyphTee @ glyphDash @ glyphDash @ '' ''), Stdout (''A'' @ [CHR 0x0A]),
             Stdout (glyphCorner @ glyphDash @ glyphDash @ '' ''), Stdout (''B'' @ [CHR 0x0A])])
       \<and> map_option (stdoutOf \<circ> snd) (fetchFilesAndFolders nw tok ow rp [] [] 1 1) =
           Some (glyphTee @ glyphDash @ glyphDash @ '' A'' @ [CHR 0x0A]
                 @ glyphCorner @ glyphDash @ glyphDash @ '' B'' @ [CHR 0x0A])
       \<and> map_option (requestsOf \<circ> snd) (fetchFilesAndFolders nw tok ow rp [] [] 1 1) =
           Some [(contentsUrl ow rp [], ''Bearer '' @ tok)]"
proof -
  have run: "fetchFilesAndFolders nw tok ow rp [] [] 1 1 =
           Some (None,
            [HttpGet (contentsUrl ow rp []) (''Bearer '' @ tok) 1,
             Stdout (glyphTee @ glyphDash @ glyphDash @ '' ''), Stdout (''A'' @ [CHR 0x0A]),
             Stdout (glyphCorner @ glyphDash @ glyphDash @ '' ''), Stdout (''B'' @ [CHR 0x0A])])"
    using assms
    by (simp add: fetchFilesAndFolders_unfold rangeFiles_unfold Let_def wrapInt64_def
        getFilePrefix_def getDirPrefix_def)
  then show ?thesis
    by simp
qed

theorem depth_one_listing_witness:
  "newRequest (tableNet repoAB) (contentsUrl ''o'' ''r'' [])
   \<and> roundTrip (tableNet repoAB) (contentsUrl ''o'' ''r'' []) (''Bearer '' @ ''t'') =
        Entries [\<lparr>Name = ''A'', Type = ''dir''\<rparr>, \<lparr>Name = ''B'', Type = ''file''\<rparr>]
   \<and> map_option (stdoutOf \<circ> snd)
        (fetchFilesAndFolders (tableNet repoAB) ''t'' ''o'' ''r'' [] [] 1 1) =
      Some [CHR 0xE2, CHR 0x94, CHR 0x9C, CHR 0xE2, CHR 0x94, CHR 0x80, CHR 0xE2, CHR 0x94,
            CHR 0x80, CHR 0x20, CHR ''A'', CHR 0x0A,
            CHR 0xE2, CHR 0x94, CHR 0x94, CHR 0xE2, CHR 0x94, CHR 0x80, CHR 0xE2, CHR 0x94,
            CHR 0x80, CHR 0x20, CHR ''B'', CHR 0x0A]
   \<and> map_option (requestsOf \<circ> snd)
        (fetchFilesAndFolders (tableNet repoAB) ''t'' ''o'' ''r'' [] [] 1 1) =
      Some [(''https://api.github.com/repos/o/r/contents/'', ''Bearer t'')]"
  using depth_one_listing [of "tableNet repoAB" "''o''" "''r''" "''t''"]
  by (simp add: tableNet_def repoAB_def contentsUrl_def
      glyphTee_def glyphDash_def glyphCorner_def)

text \<open>
  C7. The loop visits the entries in the order of the reply, with \<open>isLast\<close> true for
  the final element and no other; the visit of a directory is its line and then its
  whole subtree (path extended by \<open>/name\<close>, indent extended by the continuation glyph
  of the directory's own \<open>isLast\<close>, \<open>level+1\<close>) before the next sibling: the loop is
  \<open>inOrder\<close> of the \<open>visit\<close>s, and a fetch that gets a reply is its request followed by
  that.
\<close>

theorem entries_visited_in_order:
  "rangeFiles nw tok ow rp p ind level maxDepth files 0 =
     inOrder (map (\<lambda>i. visit nw tok ow rp p ind level maxDepth (files ! i)
                         (Suc i = length files)) [0..<length files])
   \<and> (level \<le> maxDepth \<and> newRequest nw (contentsUrl ow rp p)
        \<and> roundTrip nw (contentsUrl ow rp p) (''Bearer '' @ tok) = Entries files \<longrightarrow>
      fetchFilesAndFolders nw tok ow rp p ind level maxDepth =
        map_option (\<lambda>(r, es). (r, HttpGet (contentsUrl ow rp p) (''Bearer '' @ tok) level # es))
          (inOrder (map (\<lambda>i. visit nw tok ow rp p ind level maxDepth (files ! i)
                              (Suc i = length files)) [0..<length files])))"
proof (intro conjI impI)
  show loop: "rangeFiles nw tok ow rp p ind level maxDepth files 0 =
     inOrder (map (\<lambda>i. visit nw tok ow rp p ind level maxDepth (files ! i)
                         (Suc i = length files)) [0..<length files])"
    by (rule range_in_order_from)
  assume a: "level \<le> maxDepth \<and> newRequest nw (contentsUrl ow rp p)
        \<and> roundTrip nw (contentsUrl ow rp p) (''Bearer '' @ tok) = Entries files"
  then have "\<not> maxDepth < level" by simp
  from fetch_entries [OF this, of nw ow rp p tok files ind] a
  show "fetchFilesAndFolders nw tok ow rp p ind level maxDepth =
        map_option (\<lambda>(r, es). (r, HttpGet (contentsUrl ow rp p) (''Bearer '' @ tok) level # es))
          (inOrder (map (\<lambda>i. visit nw tok ow rp p ind level maxDepth (files ! i)
                              (Suc i = length files)) [0..<length files]))"
    by (simp only: loop)
qed

theorem entries_visited_in_order_witness:
  "(1::int) \<le> 2
   \<and> newRequest (tableNet repoAB) (contentsUrl ''o'' ''r'' [])
   \<and> roundTrip (tableNet repoAB) (contentsUrl ''o'' ''r'' []) (''Bearer '' @ ''t'') =
        Entries [\<lparr>Name = ''A'', Type = ''dir''\<rparr>, \<lparr>Name = ''B'', Type = ''file''\<rparr>]
   \<and> fetchFilesAndFolders (tableNet repoAB) ''t'' ''o'' ''r'' [] [] 1 2 =
        Some (None,
         [HttpGet ''https://api.github.com/repos/o/r/contents/'' ''Bearer t'' 1,
          Stdout (getDirPrefix False), Stdout (''A'' @ [CHR 0x0A]),
          HttpGet ''https://api.github.com/repos/o/r/contents//A'' ''Bearer t'' 2,
          Stdout (getIndentPrefix False @ getFilePrefix True), Stdout (''C'' @ [CHR 0x0A]),
          Stdout (getFilePrefix True), Stdout (''B'' @ [CHR 0x0A])])"
  using entries_visited_in_order
    [of "tableNet repoAB" "''t''" "''o''" "''r''" "[]" "[]" 1 2
        "[\<lparr>Name = ''A'', Type = ''dir''\<rparr>, \<lparr>Name = ''B'', Type = ''file''\<rparr>]"]
  by (simp add: tableNet_def repoAB_def contentsUrl_def Let_def visit_def wrapInt64_def
      fetchFilesAndFolders_unfold rangeFiles_unfold)

section \<open>The tree renderer\<close>

text \<open>
  C8. The branch glyph is \<open>U+2514 U+2500 U+2500 space\<close> for the last entry and
  \<open>U+251C U+2500 U+2500 space\<close> otherwise, the same for files and directories; the
  continuation is four spaces for the last entry and \<open>U+2502\<close> and three spaces
  otherwise (all as UTF-8 bytes); and what the loop writes for a file or directory
  entry is the indent, the branch glyph, the name and a newline. The last part is
  about every loop that returns, and the loop returns for every \<open>maxDepth\<close> below
  \<open>2^63 - 1\<close>.
\<close>

theorem rendered_lines:
  "getFilePrefix True = [CHR 0xE2, CHR 0x94, CHR 0x94, CHR 0xE2, CHR 0x94, CHR 0x80,
                         CHR 0xE2, CHR 0x94, CHR 0x80, CHR 0x20]
   \<and> getFilePrefix False = [CHR 0xE2, CHR 0x94, CHR 0x9C, CHR 0xE2, CHR 0x94, CHR 0x80,
                          CHR 0xE2, CHR 0x94, CHR 0x80, CHR 0x20]
   \<and> getDirPrefix True = getFilePrefix True
   \<and> getDirPrefix False = getFilePrefix False
   \<and> getIndentPrefix True = [CHR 0x20, CHR 0x20, CHR 0x20, CHR 0x20]
   \<and> getIndentPrefix False = [CHR 0xE2, CHR 0x94, CHR 0x82, CHR 0x20, CHR 0x20, CHR 0x20]
   \<and> (i < length files \<and> (Type (files ! i) = ''file'' \<or> Type (files ! i) = ''dir'') \<longrightarrow>
        (\<forall>r es. rangeFiles nw tok ow rp p ind level maxDepth files i = Some (r, es) \<longrightarrow>
           (\<exists>rest. stdoutOf es =
              ind @ getFilePrefix (Suc i = length files) @ Name (files ! i) @ [CHR 0x0A] @ rest))
        \<and> (maxDepth < 2 ^ 63 - 1 \<longrightarrow>
             (\<exists>r es. rangeFiles nw tok ow rp p ind level maxDepth files i = Some (r, es))))"
proof -
  have line: "\<exists>rest. stdoutOf es =
           ind @ getFilePrefix (Suc i = length files) @ Name (files ! i) @ [CHR 0x0A] @ rest"
    if "i < length files" and "Type (files ! i) = ''file'' \<or> Type (files ! i) = ''dir''"
      and "rangeFiles nw tok ow rp p ind level maxDepth files i = Some (r, es)" for r es
  proof -
    from range_line_first [OF that] obtain rest where
      "es = Stdout (ind @ getFilePrefix (Suc i = length files))
              # Stdout (Name (files ! i) @ [CHR 0x0A]) # rest"
      by blast
    then have "stdoutOf es =
           ind @ getFilePrefix (Suc i = length files) @ Name (files ! i) @ [CHR 0x0A]
             @ stdoutOf rest"
      by simp
    then show ?thesis by blast
  qed
  have returns: "\<exists>r es. rangeFiles nw tok ow rp p ind level maxDepth files i = Some (r, es)"
    if "maxDepth < 2 ^ 63 - 1"
    using range_returns [OF that, of nw tok ow rp p ind level files i] by auto
  from line returns show ?thesis
    by (simp add: getFilePrefix_def getDirPrefix_def getIndentPrefix_def
        glyphCorner_def glyphTee_def glyphDash_def glyphBar_def)
qed

theorem rendered_lines_witness:
  "(1::nat) < length [\<lparr>Name = ''A'', Type = ''dir''\<rparr>, \<lparr>Name = ''B'', Type = ''file''\<rparr>]
   \<and> Type ([\<lparr>Name = ''A'', Type = ''dir''\<rparr>, \<lparr>Name = ''B'', Type = ''file''\<rparr>] ! 1) = ''file''
   \<and> (1::int) < 2 ^ 63 - 1
   \<and> map_option (stdoutOf \<circ> snd) (rangeFiles emptyRepoNet ''t'' ''o'' ''r'' [] ''    '' 1 1
        [\<lparr>Name = ''A'', Type = ''dir''\<rparr>, \<lparr>Name = ''B'', Type = ''file''\<rparr>] 1) =
      Some [CHR 0x20, CHR 0x20, CHR 0x20, CHR 0x20,
            CHR 0xE2, CHR 0x94, CHR 0x94, CHR 0xE2, CHR 0x94, CHR 0x80, CHR 0xE2, CHR 0x94,
            CHR 0x80, CHR 0x20, CHR ''B'', CHR 0x0A]"
  using rendered_lines
    [where i = 1 and files = "[\<lparr>Name = ''A'', Type = ''dir''\<rparr>, \<lparr>Name = ''B'', Type = ''file''\<rparr>]"
       and nw = emptyRepoNet and tok = "''t''" and ow = "''o''" and rp = "''r''" and p = "[]"
       and ind = "''    ''" and level = 1 and maxDepth = 1]
  by (simp add: rangeFiles_unfold Let_def getFilePrefix_def glyphCorner_def glyphDash_def)

text \<open>
  C9. An entry whose type is neither \<open>file\<close> nor \<open>dir\<close> adds nothing: the loop at its
  index is the loop at the next index. It still counts for \<open>isLast\<close>: when the final
  entry of a reply has such a type, every file or directory of that reply is written
  with the glyph \<open>U+251C U+2500 U+2500 space\<close>, none with \<open>U+2514 U+2500 U+2500 space\<close>.
  The last part is about every loop that returns, and the loop returns for every
  \<open>maxDepth\<close> below \<open>2^63 - 1\<close>.
\<close>

theorem other_types_skipped:
  "(i < length files \<and> Type (files ! i) \<noteq> ''file'' \<and> Type (files ! i) \<noteq> ''dir'' \<longrightarrow>
      rangeFiles nw tok ow rp p ind level maxDepth files i =
        rangeFiles nw tok ow rp p ind level maxDepth files (i + 1))
   \<and> (files \<noteq> [] \<and> Type (last files) \<noteq> ''file'' \<and> Type (last files) \<noteq> ''dir''
        \<and> j < length files \<and> (Type (files ! j) = ''file'' \<or> Type (files ! j) = ''dir'') \<longrightarrow>
      (\<forall>r es. rangeFiles nw tok ow rp p ind level maxDepth files j = Some (r, es) \<longrightarrow>
         (\<exists>rest. es =
            Stdout (ind @ getFilePrefix False) # Stdout (Name (files ! j) @ [CHR 0x0A]) # rest))
      \<and> (maxDepth < 2 ^ 63 - 1 \<longrightarrow>
           (\<exists>r es. rangeFiles nw tok ow rp p ind level maxDepth files j = Some (r, es))))"
proof (intro conjI impI allI)
  assume "i < length files \<and> Type (files ! i) \<noteq> ''file'' \<and> Type (files ! i) \<noteq> ''dir''"
  then show "rangeFiles nw tok ow rp p ind level maxDepth files i =
        rangeFiles nw tok ow rp p ind level maxDepth files (i + 1)"
    by (simp add: range_other)
next
  fix r es
  assume a: "files \<noteq> [] \<and> Type (last files) \<noteq> ''file'' \<and> Type (last files) \<noteq> ''dir''
        \<and> j < length files \<and> (Type (files ! j) = ''file'' \<or> Type (files ! j) = ''dir'')"
    and ret: "rangeFiles nw tok ow rp p ind level maxDepth files j = Some (r, es)"
  have "Suc j \<noteq> length files"
  proof
    assume "Suc j = length files"
    then have "j = length files - 1" by simp
    with a have "files ! j = last files" by (simp add: last_conv_nth)
    with a show False by auto
  qed
  with range_line_first [of j files nw tok ow rp p ind level maxDepth r es] a ret
  show "\<exists>rest. es =
           Stdout (ind @ getFilePrefix False) # Stdout (Name (files ! j) @ [CHR 0x0A]) # rest"
    by simp
next
  assume "maxDepth < 2 ^ 63 - 1"
  then show "\<exists>r es. rangeFiles nw tok ow rp p ind level maxDepth files j = Some (r, es)"
    using range_returns [of maxDepth nw tok ow rp p ind level files j] by auto
qed

theorem other_types_skipped_witness:
  "(1::nat) < length [\<lparr>Name = ''A'', Type = ''file''\<rparr>, \<lparr>Name = ''L'', Type = ''symlink''\<rparr>]
   \<and> Type (last [\<lparr>Name = ''A'', Type = ''file''\<rparr>, \<lparr>Name = ''L'', Type = ''symlink''\<rparr>])
        = ''symlink''
   \<and> (1::int) < 2 ^ 63 - 1
   \<and> rangeFiles emptyRepoNet ''t'' ''o'' ''r'' [] [] 1 1
        [\<lparr>Name = ''A'', Type = ''file''\<rparr>, \<lparr>Name = ''L'', Type = ''symlink''\<rparr>] 1
      = Some (None, [])
   \<and> rangeFiles emptyRepoNet ''t'' ''o'' ''r'' [] [] 1 1
        [\<lparr>Name = ''A'', Type = ''file''\<rparr>, \<lparr>Name = ''L'', Type = ''symlink''\<rparr>] 0 =
      Some (None, [Stdout (getFilePrefix False), Stdout (''A'' @ [CHR 0x0A])])"
  using other_types_skipped
    [where i = 1 and j = 0
       and files = "[\<lparr>Name = ''A'', Type = ''file''\<rparr>, \<lparr>Name = ''L'', Type = ''symlink''\<rparr>]"
       and nw = emptyRepoNet and tok = "''t''" and ow = "''o''" and rp = "''r''" and p = "[]"
       and ind = "[]" and level = 1 and maxDepth = 1]
  by (simp add: rangeFiles_unfold Let_def)

end
